theory Spec2Isabelle
  imports Main
begin

section \<open>The label table of the assembler\<close>

text \<open>
  This theory embeds the functions of \<^verbatim>\<open>LabelTable.c\<close> (\<^verbatim>\<open>tableInit\<close>,
  \<^verbatim>\<open>printLabels\<close>, \<^verbatim>\<open>findLabel\<close>, \<^verbatim>\<open>addLabel\<close>, \<^verbatim>\<open>tableResize\<close>,
  \<^verbatim>\<open>verifyTableExists\<close>) and proves properties of them.

  Conventions of the embedding:
  \<^item> A pointer to a table is a \<open>LabelTable option\<close>; \<open>None\<close> is the \<^verbatim>\<open>NULL\<close> handle.
    A function that writes through the pointer returns the table after the call.
  \<^item> The array behind \<^verbatim>\<open>table->entries\<close> is a list of slots, one per \<^verbatim>\<open>LabelEntry\<close>
    that the block returned by \<^verbatim>\<open>malloc\<close> can hold; the pointer itself may be
    \<^verbatim>\<open>NULL\<close> (\<open>None\<close>). A slot is \<open>None\<close> while its memory is uninitialised and
    \<open>Some e\<close> once an entry has been written to it.
  \<^item> Whether an allocation succeeds is decided by the environment. Every function that
    allocates takes one boolean per allocation it may perform: \<open>True\<close> when the
    allocator returns a block, \<open>False\<close> when it returns \<^verbatim>\<open>NULL\<close>.
  \<^item> Behaviour that C leaves undefined (dereferencing \<^verbatim>\<open>NULL\<close>, an access outside
    the allocated block, reading an uninitialised entry, overflow of \<^verbatim>\<open>int\<close>
    arithmetic) is a value \<open>Inl f\<close> of the result type, \<open>f\<close> naming the fault.
  \<^item> \<^verbatim>\<open>int\<close> is a 32-bit integer, modelled by \<open>int\<close> with a check at each
    arithmetic operation of the source that it stays in range.
  \<^item> \<^verbatim>\<open>printError\<close> (declared in \<^verbatim>\<open>printFuncs.h\<close>) writes a message to the error
    stream; each function returns the list of messages it wrote, in order.
    \<^verbatim>\<open>printf\<close> writes to the standard output, returned in the same way.
  \<^item> A label name is a \<^verbatim>\<open>char *\<close>: the address of a character buffer. The
    \<open>memory\<close> gives the string that stands at each address, and \<^verbatim>\<open>strcmp\<close>
    compares the strings at two addresses. \<^verbatim>\<open>addLabel\<close> stores in the entry the
    pointer it was given, as the source does: the copy made by \<^verbatim>\<open>strdup\<close> is
    freed or dropped and never stored or read, so that only the success of
    \<^verbatim>\<open>strdup\<close> is part of the model. The name of an entry is therefore whatever
    the caller's buffer holds when the entry is read. Every pointer handed to the
    operations is taken to point to a string.
\<close>

subsection \<open>Data model\<close>

text \<open>
  Modelled from the spec: the declarations of \<^verbatim>\<open>LabelEntry\<close> and \<^verbatim>\<open>LabelTable\<close>
  in \<^verbatim>\<open>LabelTable.h\<close>, which is not among the sources. The fields are those that
  \<^verbatim>\<open>LabelTable.c\<close> reads and writes: an entry pairs a label (a \<^verbatim>\<open>char *\<close>) with an
  address; a table has a capacity, a number of labels and a pointer to its entries.
\<close>

type_synonym ptr = nat

type_synonym memory = "ptr \<Rightarrow> string"

record LabelEntry =
  label :: ptr
  address :: int

record LabelTable =
  capacity :: int
  nbrLabels :: int
  entries :: "LabelEntry option list option"

datatype fault = NullDereference | OutOfBounds | UninitialisedRead | IntegerOverflow

definition INT_MAX :: int where
  "INT_MAX = 2147483647"

definition INT_MIN :: int where
  "INT_MIN = - 2147483648"

definition in_int_range :: "int \<Rightarrow> bool" where
  "in_int_range x = (INT_MIN \<le> x \<and> x \<le> INT_MAX)"

subsection \<open>Messages\<close>

definition ERROR0 :: string where
  "ERROR0 = ''Error: no label table exists.'' @ [CHR 0x0A]"

definition ERROR1 :: string where
  "ERROR1 = ''Error: a duplicate label was found.'' @ [CHR 0x0A]"

definition ERROR2 :: string where
  "ERROR2 = ''Error: cannot allocate space in memory.'' @ [CHR 0x0A]"

subsection \<open>Access to the entries\<close>

text \<open>Reading \<^verbatim>\<open>table->entries[i]\<close>.\<close>

definition readEntry :: "LabelTable \<Rightarrow> int \<Rightarrow> fault + LabelEntry" where
  "readEntry t i =
     (case entries t of
        None \<Rightarrow> Inl NullDereference
      | Some block \<Rightarrow>
          if i < 0 \<or> int (length block) \<le> i then Inl OutOfBounds
          else (case block ! nat i of
                  None \<Rightarrow> Inl UninitialisedRead
                | Some e \<Rightarrow> Inr e))"

text \<open>
  Writing both fields of \<^verbatim>\<open>table->entries[i]\<close>, as the two assignments of
  \<^verbatim>\<open>addLabel\<close> do.
\<close>

definition writeEntry :: "LabelTable \<Rightarrow> int \<Rightarrow> LabelEntry \<Rightarrow> fault + LabelTable" where
  "writeEntry t i e =
     (case entries t of
        None \<Rightarrow> Inl NullDereference
      | Some block \<Rightarrow>
          if i < 0 \<or> int (length block) \<le> i then Inl OutOfBounds
          else Inr (t\<lparr>entries := Some (block[nat i := Some e])\<rparr>))"

subsection \<open>The operations\<close>

text \<open>\<^verbatim>\<open>verifyTableExists\<close>: the messages written and the value returned.\<close>

definition verifyTableExists :: "LabelTable option \<Rightarrow> string list \<times> int" where
  "verifyTableExists table = (if table = None then ([ERROR0], 0) else ([], 1))"

text \<open>
  \<^verbatim>\<open>tableInit\<close>. The block it allocates has room for one entry; the result of
  \<^verbatim>\<open>malloc\<close> is stored unchecked. For a \<^verbatim>\<open>NULL\<close> handle the message is written by
  \<^verbatim>\<open>verifyTableExists\<close> and once more by \<^verbatim>\<open>tableInit\<close> itself.
\<close>

definition tableInit :: "bool \<Rightarrow> LabelTable option \<Rightarrow> fault + (LabelTable option \<times> string list)" where
  "tableInit malloc_ok table =
     (case verifyTableExists table of
        (err, exists) \<Rightarrow>
          if exists = 0 then Inr (table, err @ [ERROR0])
          else (case table of
                  None \<Rightarrow> Inl NullDereference
                | Some t \<Rightarrow>
                    Inr (Some (t\<lparr>capacity := 0,
                                 entries := (if malloc_ok then Some [None] else None),
                                 nbrLabels := 0\<rparr>), err)))"

text \<open>
  The loop of \<^verbatim>\<open>findLabel\<close>, from index \<open>i\<close> on. The test
  \<^verbatim>\<open>strcmp(table->entries[i].label, label) == SAME\<close> holds when the strings at the
  two addresses are equal.
\<close>

function findLabel_loop :: "memory \<Rightarrow> LabelTable \<Rightarrow> ptr \<Rightarrow> int \<Rightarrow> fault + int" where
  "findLabel_loop mem t lbl i =
     (if i < nbrLabels t then
        (case readEntry t i of
           Inl f \<Rightarrow> Inl f
         | Inr e \<Rightarrow>
             if mem (label e) = mem lbl then Inr (address e)
             else findLabel_loop mem t lbl (i + 1))
      else Inr (- 1))"
  by pat_completeness auto
termination
  by (relation "measure (\<lambda>(mem, t, lbl, i). nat (nbrLabels t - i))") auto

declare findLabel_loop.simps [simp del]

definition findLabel :: "memory \<Rightarrow> LabelTable option \<Rightarrow> ptr \<Rightarrow> fault + (string list \<times> int)" where
  "findLabel mem table lbl =
     (case verifyTableExists table of
        (err, exists) \<Rightarrow>
          if exists = 0 then Inr (err, - 1)
          else (case table of
                  None \<Rightarrow> Inl NullDereference
                | Some t \<Rightarrow>
                    (case findLabel_loop mem t lbl 0 of
                       Inl f \<Rightarrow> Inl f
                     | Inr a \<Rightarrow> Inr (err, a))))"

text \<open>
  \<^verbatim>\<open>tableResize\<close>. The size passed to \<^verbatim>\<open>malloc\<close> is
  \<^verbatim>\<open>newSize * sizeof(LabelEntry)\<close>, computed in \<^verbatim>\<open>size_t\<close>: for a negative
  \<^verbatim>\<open>newSize\<close> it is a request for nearly the whole address space, which the
  allocator refuses. \<^verbatim>\<open>memcpy\<close> copies the first \<^verbatim>\<open>smaller\<close> slots of the old
  block, initialised or not; the rest of the new block is uninitialised.
\<close>

definition tableResize :: "bool \<Rightarrow> LabelTable option \<Rightarrow> int \<Rightarrow> fault + (LabelTable option \<times> string list \<times> int)" where
  "tableResize malloc_ok table newSize =
     (case verifyTableExists table of
        (err, exists) \<Rightarrow>
          if exists = 0 then Inr (table, err, 0)
          else (case table of
                  None \<Rightarrow> Inl NullDereference
                | Some t \<Rightarrow>
                    if \<not> (malloc_ok \<and> 0 \<le> newSize) then Inr (table, err @ [ERROR2], 0)
                    else (case entries t of
                            None \<Rightarrow>
                              Inr (Some (t\<lparr>entries := Some (replicate (nat newSize) None),
                                           capacity := newSize\<rparr>), err, 1)
                          | Some old \<Rightarrow>
                              (let smaller = (if nbrLabels t < newSize then nbrLabels t else newSize)
                               in if smaller < 0 \<or> int (length old) < smaller then Inl OutOfBounds
                                  else Inr (Some (t\<lparr>nbrLabels := smaller,
                                                    entries := Some (take (nat smaller) old
                                                       @ replicate (nat (newSize - smaller)) None),
                                                    capacity := newSize\<rparr>), err, 1)))))"

text \<open>
  \<^verbatim>\<open>addLabel\<close>. \<open>strdup_ok\<close> is the outcome of \<^verbatim>\<open>strdup\<close>, \<open>malloc_ok\<close> that of
  the \<^verbatim>\<open>malloc\<close> in \<^verbatim>\<open>tableResize\<close>, should it be called. The value returned by
  \<^verbatim>\<open>tableResize\<close> is not looked at. The entry receives \<^verbatim>\<open>label\<close>, the pointer of
  the caller, not \<^verbatim>\<open>labelDuplicate\<close>.
\<close>

definition addLabel :: "memory \<Rightarrow> bool \<Rightarrow> bool \<Rightarrow> LabelTable option \<Rightarrow> ptr \<Rightarrow> int \<Rightarrow> fault + (LabelTable option \<times> string list \<times> int)" where
  "addLabel mem strdup_ok malloc_ok table lbl PC =
     (case verifyTableExists table of
        (err0, exists) \<Rightarrow>
          if exists = 0 then Inr (table, err0, 0)
          else if \<not> strdup_ok then Inr (table, err0 @ [ERROR1], 0)
          else (case findLabel mem table lbl of
                  Inl f \<Rightarrow> Inl f
                | Inr (err1, found) \<Rightarrow>
                    if found \<noteq> - 1 then Inr (table, err0 @ err1 @ [ERROR2], 1)
                    else (case table of
                            None \<Rightarrow> Inl NullDereference
                          | Some t \<Rightarrow>
                              (case (if nbrLabels t \<ge> capacity t then
                                       (if in_int_range (nbrLabels t + 1) \<and> in_int_range (2 * (nbrLabels t + 1))
                                        then tableResize malloc_ok table (2 * (nbrLabels t + 1))
                                        else Inl IntegerOverflow)
                                     else Inr (table, [], 1)) of
                                 Inl f \<Rightarrow> Inl f
                               | Inr (table', err2, resized) \<Rightarrow>
                                   (case table' of
                                      None \<Rightarrow> Inl NullDereference
                                    | Some t' \<Rightarrow>
                                        (case writeEntry t' (nbrLabels t') \<lparr>label = lbl, address = PC\<rparr> of
                                           Inl f \<Rightarrow> Inl f
                                         | Inr t'' \<Rightarrow>
                                             if in_int_range (nbrLabels t'' + 1)
                                             then Inr (Some (t''\<lparr>nbrLabels := nbrLabels t'' + 1\<rparr>),
                                                       err0 @ err1 @ err2, 1)
                                             else Inl IntegerOverflow))))))"

text \<open>
  \<^verbatim>\<open>printLabels\<close> writes to the standard output: a header with the number of labels
  and one line per entry. \<open>show_int\<close> is the decimal rendering of \<^verbatim>\<open>%d\<close>.
\<close>

function show_nat :: "nat \<Rightarrow> string" where
  "show_nat n = (if n < 10 then [char_of (48 + n)] else show_nat (n div 10) @ [char_of (48 + n mod 10)])"
  by pat_completeness auto
termination
  by (relation "measure (\<lambda>n. n)") auto

declare show_nat.simps [simp del]

definition show_int :: "int \<Rightarrow> string" where
  "show_int i = (if i < 0 then CHR ''-'' # show_nat (nat (- i)) else show_nat (nat i))"

function printLabels_loop :: "memory \<Rightarrow> LabelTable \<Rightarrow> int \<Rightarrow> fault + string list" where
  "printLabels_loop mem t i =
     (if i < nbrLabels t then
        (case readEntry t i of
           Inl f \<Rightarrow> Inl f
         | Inr e \<Rightarrow>
             (case printLabels_loop mem t (i + 1) of
                Inl f \<Rightarrow> Inl f
              | Inr out \<Rightarrow>
                  Inr ((''table name: '' @ mem (label e) @ replicate 21 CHR '' '' @ ''Address: ''
                        @ show_int (address e) @ [CHR 0x0A]) # out)))
      else Inr [])"
  by pat_completeness auto
termination
  by (relation "measure (\<lambda>(mem, t, i). nat (nbrLabels t - i))") auto

declare printLabels_loop.simps [simp del]

definition printLabels :: "memory \<Rightarrow> LabelTable option \<Rightarrow> fault + string list" where
  "printLabels mem table =
     (case table of
        None \<Rightarrow> Inr [''Label Table is a NULL pointer.'' @ [CHR 0x0A]]
      | Some t \<Rightarrow>
          (case printLabels_loop mem t 0 of
             Inl f \<Rightarrow> Inl f
           | Inr out \<Rightarrow>
               Inr ((''There are '' @ show_int (nbrLabels t) @ '' labels in the table:''
                     @ [CHR 0x0A]) # out)))"

subsection \<open>The caller\<close>

text \<open>
  What a caller does with a table it has initialised: it calls \<^verbatim>\<open>addLabel\<close> with a
  pointer and an address (the step carries the outcomes of the two allocations of
  the call), or it writes a string into one of its buffers, as a caller does that
  reads the next line into the buffer it read the last one into. The value returned
  by \<^verbatim>\<open>addLabel\<close> is not used to stop: after a return of 0 the table is as before.
\<close>

datatype step =
  Call_addLabel bool bool ptr int
| Caller_writes ptr string

fun run :: "memory \<Rightarrow> LabelTable \<Rightarrow> step list \<Rightarrow> fault + (memory \<times> LabelTable)" where
  "run mem t [] = Inr (mem, t)"
| "run mem t (Call_addLabel strdup_ok malloc_ok lbl PC # steps) =
     (case addLabel mem strdup_ok malloc_ok (Some t) lbl PC of
        Inl f \<Rightarrow> Inl f
      | Inr (table', err, r) \<Rightarrow>
          (case table' of
             None \<Rightarrow> Inl NullDereference
           | Some t' \<Rightarrow> run mem t' steps))"
| "run mem t (Caller_writes p s # steps) = run (mem(p := s)) t steps"

text \<open>Conditions on the steps: no buffer is written; no address is \<open>- 1\<close>; every
  \<^verbatim>\<open>malloc\<close> is granted.\<close>

fun is_call :: "step \<Rightarrow> bool" where
  "is_call (Call_addLabel strdup_ok malloc_ok lbl PC) = True"
| "is_call (Caller_writes p s) = False"

fun address_ok :: "step \<Rightarrow> bool" where
  "address_ok (Call_addLabel strdup_ok malloc_ok lbl PC) = (PC \<noteq> - 1)"
| "address_ok (Caller_writes p s) = True"

fun malloc_granted :: "step \<Rightarrow> bool" where
  "malloc_granted (Call_addLabel strdup_ok malloc_ok lbl PC) = malloc_ok"
| "malloc_granted (Caller_writes p s) = True"

subsection \<open>The entries of a table and its well-formedness\<close>

text \<open>The allocated block (empty for a \<^verbatim>\<open>NULL\<close> pointer).\<close>

definition block :: "LabelTable \<Rightarrow> LabelEntry option list" where
  "block t = (case entries t of None \<Rightarrow> [] | Some b \<Rightarrow> b)"

primrec initialised :: "'a option list \<Rightarrow> 'a list" where
  "initialised [] = []"
| "initialised (s # ss) = (case s of None \<Rightarrow> initialised ss | Some e \<Rightarrow> e # initialised ss)"

text \<open>The entries of the table: the first \<^verbatim>\<open>nbrLabels\<close> slots, in order.\<close>

definition labelEntries :: "LabelTable \<Rightarrow> LabelEntry list" where
  "labelEntries t = initialised (take (nat (nbrLabels t)) (block t))"

text \<open>
  A table is well formed when its first \<^verbatim>\<open>nbrLabels\<close> slots exist and are
  initialised and its capacity does not exceed the size of the block. \<^verbatim>\<open>tableInit\<close>
  establishes this and the other operations keep it (lemmas below).
\<close>

definition wf_table :: "LabelTable \<Rightarrow> bool" where
  "wf_table t =
     (0 \<le> nbrLabels t \<and> nbrLabels t \<le> int (length (block t)) \<and>
      capacity t \<le> int (length (block t)) \<and>
      list_all (\<lambda>s. s \<noteq> None) (take (nat (nbrLabels t)) (block t)))"

text \<open>
  The lookup as the specification words it: the address of the first entry whose
  name matches, the not-found signal \<open>- 1\<close> when there is none. The name of an
  entry is the string at its pointer.
\<close>

definition entry_name :: "memory \<Rightarrow> LabelEntry \<Rightarrow> string" where
  "entry_name mem e = mem (label e)"

definition find_spec :: "memory \<Rightarrow> LabelEntry list \<Rightarrow> ptr \<Rightarrow> int" where
  "find_spec mem es lbl =
     (case List.find (\<lambda>e. entry_name mem e = mem lbl) es of None \<Rightarrow> - 1 | Some e \<Rightarrow> address e)"

text \<open>The names of the entries, as the memory has them now.\<close>

definition names :: "memory \<Rightarrow> LabelTable \<Rightarrow> string list" where
  "names mem t = map (entry_name mem) (labelEntries t)"

definition names_distinct :: "memory \<Rightarrow> LabelTable \<Rightarrow> bool" where
  "names_distinct mem t = distinct (names mem t)"

text \<open>No entry has the address \<open>- 1\<close>, the value by which \<^verbatim>\<open>findLabel\<close> signals not-found.\<close>

definition no_sentinel :: "LabelTable \<Rightarrow> bool" where
  "no_sentinel t = list_all (\<lambda>e. address e \<noteq> - 1) (labelEntries t)"

text \<open>
  The invariant of a table that is filled by \<^verbatim>\<open>addLabel\<close> with addresses other than
  \<open>- 1\<close> while the caller leaves its buffers as they are.
\<close>

definition table_inv :: "memory \<Rightarrow> LabelTable \<Rightarrow> bool" where
  "table_inv mem t = (wf_table t \<and> names_distinct mem t \<and> no_sentinel t)"

subsection \<open>Lookup on a well-formed table\<close>

lemma initialised_map_Some: "initialised (map Some es) = es"
  by (induction es) simp_all

lemma map_Some_initialised: "list_all (\<lambda>s. s \<noteq> None) ss \<Longrightarrow> map Some (initialised ss) = ss"
  by (induction ss) (auto split: option.splits)

lemma length_initialised: "list_all (\<lambda>s. s \<noteq> None) ss \<Longrightarrow> length (initialised ss) = length ss"
  by (induction ss) (auto split: option.splits)

lemma wf_take: "wf_table t \<Longrightarrow> take (nat (nbrLabels t)) (block t) = map Some (labelEntries t)"
  by (simp add: wf_table_def labelEntries_def map_Some_initialised)

lemma wf_length: "wf_table t \<Longrightarrow> length (labelEntries t) = nat (nbrLabels t)"
  by (auto simp: wf_table_def labelEntries_def length_initialised)

lemma wf_nth:
  assumes "wf_table t" "0 \<le> i" "i < nbrLabels t"
  shows "block t ! nat i = Some (labelEntries t ! nat i)"
proof -
  have lt: "nat i < nat (nbrLabels t)" using assms by simp
  have "block t ! nat i = take (nat (nbrLabels t)) (block t) ! nat i"
    using lt by simp
  also have "\<dots> = map Some (labelEntries t) ! nat i"
    using assms(1) by (simp add: wf_take)
  also have "\<dots> = Some (labelEntries t ! nat i)"
    using lt assms(1) by (simp add: wf_length)
  finally show ?thesis .
qed

lemma readEntry_wf:
  assumes "wf_table t" "0 \<le> i" "i < nbrLabels t"
  shows "readEntry t i = Inr (labelEntries t ! nat i)"
proof -
  from assms have len: "i < int (length (block t))"
    by (simp add: wf_table_def)
  with assms(2) obtain b where b: "entries t = Some b"
    by (cases "entries t") (simp_all add: block_def)
  with len have "i < int (length b)" by (simp add: block_def)
  moreover have "b ! nat i = Some (labelEntries t ! nat i)"
    using wf_nth [OF assms] b by (simp add: block_def)
  ultimately show ?thesis
    using assms(2) b by (simp add: readEntry_def)
qed

lemma find_spec_Cons:
  "find_spec mem (e # es) lbl = (if entry_name mem e = mem lbl then address e else find_spec mem es lbl)"
  by (simp add: find_spec_def)

lemma findLabel_loop_wf:
  "wf_table t \<Longrightarrow> 0 \<le> i \<Longrightarrow>
   findLabel_loop mem t lbl i = Inr (find_spec mem (drop (nat i) (labelEntries t)) lbl)"
proof (induction mem t lbl i rule: findLabel_loop.induct)
  case (1 mem t lbl i)
  show ?case
  proof (cases "i < nbrLabels t")
    case False
    then have "drop (nat i) (labelEntries t) = []"
      using "1.prems" by (simp add: wf_length)
    with False show ?thesis
      by (simp add: findLabel_loop.simps [of mem t lbl i] find_spec_def)
  next
    case True
    let ?e = "labelEntries t ! nat i"
    have rd: "readEntry t i = Inr ?e"
      using "1.prems" True by (rule readEntry_wf)
    have "nat i < length (labelEntries t)"
      using "1.prems" True by (simp add: wf_length)
    then have dr: "drop (nat i) (labelEntries t) = ?e # drop (nat (i + 1)) (labelEntries t)"
      using "1.prems"(2) by (simp add: Cons_nth_drop_Suc nat_add_distrib)
    show ?thesis
    proof (cases "mem (label ?e) = mem lbl")
      case True
      with \<open>i < nbrLabels t\<close> rd dr show ?thesis
        by (simp add: findLabel_loop.simps [of mem t lbl i] find_spec_Cons entry_name_def)
    next
      case False
      have "findLabel_loop mem t lbl (i + 1) = Inr (find_spec mem (drop (nat (i + 1)) (labelEntries t)) lbl)"
        using "1.IH" [OF True rd False] "1.prems" by simp
      with \<open>i < nbrLabels t\<close> rd dr False show ?thesis
        by (simp add: findLabel_loop.simps [of mem t lbl i] find_spec_Cons entry_name_def)
    qed
  qed
qed

lemma findLabel_wf:
  "wf_table t \<Longrightarrow> findLabel mem (Some t) lbl = Inr ([], find_spec mem (labelEntries t) lbl)"
  by (simp add: findLabel_def verifyTableExists_def findLabel_loop_wf)

lemma findLabel_NULL: "findLabel mem None lbl = Inr ([ERROR0], - 1)"
  by (simp add: findLabel_def verifyTableExists_def)

subsection \<open>Resizing a well-formed table\<close>

lemma initialised_append: "initialised (ss @ [Some e]) = initialised ss @ [e]"
  by (induction ss) (auto split: option.splits)

lemma wf_prefix_entries:
  assumes "wf_table t" "k \<le> nat (nbrLabels t)"
  shows "take k (block t) = map Some (take k (labelEntries t))"
proof -
  have "take k (block t) = take k (take (nat (nbrLabels t)) (block t))"
    using assms(2) by (simp add: min_absorb1)
  also have "\<dots> = take k (map Some (labelEntries t))"
    using assms(1) by (simp add: wf_take)
  finally show ?thesis by (simp add: take_map)
qed

lemma wf_entries_NULL: "wf_table t \<Longrightarrow> entries t = None \<Longrightarrow> nbrLabels t = 0 \<and> labelEntries t = []"
  by (simp add: wf_table_def block_def labelEntries_def)

lemma tableResize_NULL: "tableResize malloc_ok None newSize = Inr (None, [ERROR0], 0)"
  by (simp add: tableResize_def verifyTableExists_def)

lemma tableResize_fails:
  "\<not> (malloc_ok \<and> 0 \<le> newSize) \<Longrightarrow>
   tableResize malloc_ok (Some t) newSize = Inr (Some t, [ERROR2], 0)"
  by (simp add: tableResize_def verifyTableExists_def)

lemma tableResize_wf:
  assumes wf: "wf_table t" and n: "0 \<le> newSize"
  shows "\<exists>t'. tableResize True (Some t) newSize = Inr (Some t', [], 1) \<and>
           capacity t' = newSize \<and> nbrLabels t' = min (nbrLabels t) newSize \<and>
           labelEntries t' = take (nat newSize) (labelEntries t) \<and>
           int (length (block t')) = newSize \<and> wf_table t'"
proof (cases "entries t")
  case None
  let ?t' = "t\<lparr>entries := Some (replicate (nat newSize) None), capacity := newSize\<rparr>"
  from wf None have z: "nbrLabels t = 0" "labelEntries t = []"
    by (simp_all add: wf_entries_NULL)
  have "tableResize True (Some t) newSize = Inr (Some ?t', [], 1)"
    using None n by (simp add: tableResize_def verifyTableExists_def)
  moreover have "wf_table ?t'" "labelEntries ?t' = take (nat newSize) (labelEntries t)"
    "int (length (block ?t')) = newSize" "nbrLabels ?t' = min (nbrLabels t) newSize"
    using z n by (simp_all add: wf_table_def block_def labelEntries_def)
  ultimately show ?thesis by simp
next
  case (Some old)
  define smaller where "smaller = min (nbrLabels t) newSize"
  let ?new = "take (nat smaller) old @ replicate (nat (newSize - smaller)) None"
  let ?t' = "t\<lparr>nbrLabels := smaller, entries := Some ?new, capacity := newSize\<rparr>"
  have old: "block t = old" using Some by (simp add: block_def)
  have s0: "0 \<le> smaller" "smaller \<le> nbrLabels t" "smaller \<le> newSize"
    using wf n by (simp_all add: smaller_def wf_table_def)
  have s1: "smaller \<le> int (length old)"
    using wf s0 old by (simp add: wf_table_def)
  have sm: "(if nbrLabels t < newSize then nbrLabels t else newSize) = smaller"
    by (simp add: smaller_def min_def)
  have res: "tableResize True (Some t) newSize = Inr (Some ?t', [], 1)"
    using Some n s0 s1 by (simp add: tableResize_def verifyTableExists_def sm Let_def)
  have pre: "take (nat smaller) old = map Some (take (nat smaller) (labelEntries t))"
    using wf_prefix_entries [OF wf, of "nat smaller"] s0 old by simp
  have l: "length (take (nat smaller) old) = nat smaller"
    using s0 s1 by simp
  have "take (nat smaller) ?new = take (nat smaller) old"
    using l by simp
  with pre have tk: "take (nat smaller) ?new = map Some (take (nat smaller) (labelEntries t))"
    by simp
  have len: "int (length ?new) = newSize"
    using s0 l by simp
  have ents: "labelEntries ?t' = take (nat smaller) (labelEntries t)"
    unfolding labelEntries_def block_def
    using tk by (simp add: initialised_map_Some labelEntries_def block_def)
  have "take (nat smaller) (labelEntries t) = take (nat newSize) (labelEntries t)"
    using wf_length [OF wf] s0 n by (auto simp: smaller_def min_def)
  with ents have ents': "labelEntries ?t' = take (nat newSize) (labelEntries t)" by simp
  have "list_all (\<lambda>s. s \<noteq> None) (take (nat smaller) ?new)"
    unfolding tk by (simp add: list_all_iff)
  then have wft: "wf_table ?t'"
    using s0 len by (simp add: wf_table_def block_def)
  have len': "int (length (block ?t')) = newSize"
    using len by (simp add: block_def)
  have nb: "nbrLabels ?t' = min (nbrLabels t) newSize"
    by (simp add: smaller_def)
  have cp: "capacity ?t' = newSize"
    by simp
  from res cp nb ents' len' wft show ?thesis
    by blast
qed

subsection \<open>Adding to a well-formed table\<close>

lemma addLabel_NULL: "addLabel mem strdup_ok malloc_ok None lbl PC = Inr (None, [ERROR0], 0)"
  by (simp add: addLabel_def verifyTableExists_def)

lemma addLabel_strdup_fails: "addLabel mem False malloc_ok (Some t) lbl PC = Inr (Some t, [ERROR1], 0)"
  by (simp add: addLabel_def verifyTableExists_def)

lemma addLabel_duplicate:
  "wf_table t \<Longrightarrow> find_spec mem (labelEntries t) lbl \<noteq> - 1 \<Longrightarrow>
   addLabel mem True malloc_ok (Some t) lbl PC = Inr (Some t, [ERROR2], 1)"
  by (simp add: addLabel_def verifyTableExists_def findLabel_wf)

text \<open>The statements of \<^verbatim>\<open>addLabel\<close> after the test for a duplicate.\<close>

lemma addLabel_new_unfold:
  assumes "wf_table t" "find_spec mem (labelEntries t) lbl = - 1"
  shows "addLabel mem True malloc_ok (Some t) lbl PC =
     (case (if nbrLabels t \<ge> capacity t then
              (if in_int_range (nbrLabels t + 1) \<and> in_int_range (2 * (nbrLabels t + 1))
               then tableResize malloc_ok (Some t) (2 * (nbrLabels t + 1))
               else Inl IntegerOverflow)
            else Inr (Some t, [], 1)) of
        Inl f \<Rightarrow> Inl f
      | Inr (table', err2, resized) \<Rightarrow>
          (case table' of
             None \<Rightarrow> Inl NullDereference
           | Some t' \<Rightarrow>
               (case writeEntry t' (nbrLabels t') \<lparr>label = lbl, address = PC\<rparr> of
                  Inl f \<Rightarrow> Inl f
                | Inr t'' \<Rightarrow>
                    if in_int_range (nbrLabels t'' + 1)
                    then Inr (Some (t''\<lparr>nbrLabels := nbrLabels t'' + 1\<rparr>), err2, 1)
                    else Inl IntegerOverflow)))"
  using assms
  by (simp add: addLabel_def verifyTableExists_def findLabel_wf
           split: sum.splits option.splits prod.splits)

lemma writeEntry_Inr:
  assumes "writeEntry t i e = Inr t2"
  shows "0 \<le> i \<and> i < int (length (block t)) \<and>
         t2 = t\<lparr>entries := Some ((block t)[nat i := Some e])\<rparr>"
  using assms by (auto simp: writeEntry_def block_def split: option.splits if_splits)

lemma writeEntry_in_block:
  assumes "0 \<le> i" "i < int (length (block t))"
  shows "writeEntry t i e = Inr (t\<lparr>entries := Some ((block t)[nat i := Some e])\<rparr>)"
  using assms by (cases "entries t") (simp_all add: writeEntry_def block_def)

lemma append_slot:
  fixes e :: LabelEntry
  assumes wf: "wf_table t" and room: "nbrLabels t < int (length (block t))"
  defines "t' \<equiv> t\<lparr>entries := Some ((block t)[nat (nbrLabels t) := Some e]),
                    nbrLabels := nbrLabels t + 1\<rparr>"
  shows "wf_table t' \<and> labelEntries t' = labelEntries t @ [e]"
proof -
  let ?n = "nat (nbrLabels t)"
  have n0: "0 \<le> nbrLabels t" using wf by (simp add: wf_table_def)
  have lt: "?n < length (block t)" using room n0 by simp
  have sn: "nat (nbrLabels t + 1) = Suc ?n" using n0 by simp
  have "take (Suc ?n) ((block t)[?n := Some e]) = take ?n ((block t)[?n := Some e]) @ [Some e]"
    using lt by (simp add: take_Suc_conv_app_nth)
  also have "\<dots> = take ?n (block t) @ [Some e]"
    by simp
  also have "\<dots> = map Some (labelEntries t) @ [Some e]"
    using wf by (simp add: wf_take)
  finally have tk: "take (Suc ?n) ((block t)[?n := Some e]) = map Some (labelEntries t @ [e])"
    by simp
  have bl: "block t' = (block t)[?n := Some e]" "nbrLabels t' = nbrLabels t + 1"
    "capacity t' = capacity t"
    by (simp_all add: t'_def block_def)
  have ents: "labelEntries t' = labelEntries t @ [e]"
    unfolding labelEntries_def bl sn tk by (rule initialised_map_Some)
  have "list_all (\<lambda>s. s \<noteq> None) (take (nat (nbrLabels t')) (block t'))"
    unfolding bl sn tk by (simp add: list_all_iff)
  then have "wf_table t'"
    using wf room n0 by (simp add: wf_table_def bl)
  with ents show ?thesis by simp
qed

lemma grow_step:
  assumes wf: "wf_table t"
    and g: "(if nbrLabels t \<ge> capacity t then
              (if in_int_range (nbrLabels t + 1) \<and> in_int_range (2 * (nbrLabels t + 1))
               then tableResize malloc_ok (Some t) (2 * (nbrLabels t + 1))
               else Inl IntegerOverflow)
            else Inr (Some t, [], 1)) = Inr (table', err2, resized)"
  shows "\<exists>t1. table' = Some t1 \<and> wf_table t1 \<and> labelEntries t1 = labelEntries t \<and>
              nbrLabels t1 = nbrLabels t \<and>
              (t1 = t \<or> capacity t \<le> nbrLabels t \<and> malloc_ok \<and> err2 = [] \<and>
                 capacity t1 = 2 * (nbrLabels t + 1) \<and>
                 int (length (block t1)) = 2 * (nbrLabels t + 1))"
proof (cases "capacity t \<le> nbrLabels t \<and> malloc_ok")
  case False
  have "table' = Some t"
  proof (cases "capacity t \<le> nbrLabels t")
    case True
    with False have "\<not> malloc_ok" by simp
    then have "tableResize malloc_ok (Some t) (2 * (nbrLabels t + 1)) = Inr (Some t, [ERROR2], 0)"
      by (simp add: tableResize_fails)
    with g True show ?thesis by (simp split: if_splits)
  next
    case False
    with g show ?thesis by simp
  qed
  with wf show ?thesis by simp
next
  case True
  have n0: "0 \<le> nbrLabels t" using wf by (simp add: wf_table_def)
  then have "0 \<le> 2 * (nbrLabels t + 1)" by simp
  from tableResize_wf [OF wf this] obtain t1 where
    t1: "tableResize True (Some t) (2 * (nbrLabels t + 1)) = Inr (Some t1, [], 1)"
      "capacity t1 = 2 * (nbrLabels t + 1)"
      "nbrLabels t1 = min (nbrLabels t) (2 * (nbrLabels t + 1))"
      "labelEntries t1 = take (nat (2 * (nbrLabels t + 1))) (labelEntries t)"
      "int (length (block t1)) = 2 * (nbrLabels t + 1)" "wf_table t1"
    by blast
  from g True t1(1) have tab: "table' = Some t1" "err2 = []"
    by (simp_all split: if_splits)
  have "nbrLabels t1 = nbrLabels t" using t1(3) n0 by simp
  moreover have "labelEntries t1 = labelEntries t"
    using t1(4) wf_length [OF wf] n0 by simp
  ultimately show ?thesis using tab t1 True by simp
qed

lemma addLabel_new_result:
  assumes wf: "wf_table t" and new: "find_spec mem (labelEntries t) lbl = - 1"
    and res: "addLabel mem True malloc_ok (Some t) lbl PC = Inr (table', err, r)"
  shows "\<exists>t'. table' = Some t' \<and> wf_table t' \<and>
              labelEntries t' = labelEntries t @ [\<lparr>label = lbl, address = PC\<rparr>] \<and>
              r = 1 \<and> nbrLabels t' = nbrLabels t + 1 \<and>
              (capacity t' = capacity t \<or>
               capacity t \<le> nbrLabels t \<and> malloc_ok \<and> err = [] \<and>
               capacity t' = 2 * (nbrLabels t + 1))"
proof -
  let ?e = "\<lparr>label = lbl, address = PC\<rparr>"
  define G where "G = (if nbrLabels t \<ge> capacity t then
              (if in_int_range (nbrLabels t + 1) \<and> in_int_range (2 * (nbrLabels t + 1))
               then tableResize malloc_ok (Some t) (2 * (nbrLabels t + 1))
               else Inl IntegerOverflow)
            else Inr (Some t, [], 1))"
  have unf: "addLabel mem True malloc_ok (Some t) lbl PC =
     (case G of
        Inl f \<Rightarrow> Inl f
      | Inr (table', err2, resized) \<Rightarrow>
          (case table' of
             None \<Rightarrow> Inl NullDereference
           | Some t' \<Rightarrow>
               (case writeEntry t' (nbrLabels t') ?e of
                  Inl f \<Rightarrow> Inl f
                | Inr t'' \<Rightarrow>
                    if in_int_range (nbrLabels t'' + 1)
                    then Inr (Some (t''\<lparr>nbrLabels := nbrLabels t'' + 1\<rparr>), err2, 1)
                    else Inl IntegerOverflow)))"
    unfolding G_def by (rule addLabel_new_unfold [OF wf new])
  from res unf obtain tab1 err2 rz where G: "G = Inr (tab1, err2, rz)"
    by (cases G) auto
  from grow_step [OF wf G [unfolded G_def]] obtain t1 where
    t1: "tab1 = Some t1" "wf_table t1" "labelEntries t1 = labelEntries t"
      "nbrLabels t1 = nbrLabels t"
      "t1 = t \<or> capacity t \<le> nbrLabels t \<and> malloc_ok \<and> err2 = [] \<and>
         capacity t1 = 2 * (nbrLabels t + 1) \<and> int (length (block t1)) = 2 * (nbrLabels t + 1)"
    by blast
  from res unf G t1(1) obtain t2 where
    w: "writeEntry t1 (nbrLabels t1) ?e = Inr t2"
    by (cases "writeEntry t1 (nbrLabels t1) ?e") auto
  from writeEntry_Inr [OF w] have
    room: "nbrLabels t1 < int (length (block t1))" and
    t2: "t2 = t1\<lparr>entries := Some ((block t1)[nat (nbrLabels t1) := Some ?e])\<rparr>"
    by simp_all
  let ?t' = "t1\<lparr>entries := Some ((block t1)[nat (nbrLabels t1) := Some ?e]),
                 nbrLabels := nbrLabels t1 + 1\<rparr>"
  from res unf G t1(1) w t2 have out: "table' = Some ?t'" "err = err2" "r = 1"
    by (simp_all split: if_splits)
  from append_slot [OF t1(2) room, of ?e] have
    "wf_table ?t'" "labelEntries ?t' = labelEntries t1 @ [?e]"
    by simp_all
  moreover have "capacity ?t' = capacity t1" "nbrLabels ?t' = nbrLabels t1 + 1"
    by simp_all
  ultimately show ?thesis
    using out t1(3,4,5) by auto
qed

lemma addLabel_duplicate_unchanged:
  assumes "wf_table t" "find_spec mem (labelEntries t) lbl \<noteq> - 1"
  shows "addLabel mem strdup_ok malloc_ok (Some t) lbl PC =
           Inr (Some t, if strdup_ok then [ERROR2] else [ERROR1], if strdup_ok then 1 else 0)"
  using assms by (cases strdup_ok) (simp_all add: addLabel_duplicate addLabel_strdup_fails)

text \<open>What any call of \<^verbatim>\<open>addLabel\<close> on a well-formed table does to the entries.\<close>

lemma addLabel_step:
  assumes wf: "wf_table t"
    and res: "addLabel mem strdup_ok malloc_ok (Some t) lbl PC = Inr (table', err, r)"
  shows "\<exists>t'. table' = Some t' \<and> wf_table t' \<and>
           (t' = t \<or>
            strdup_ok \<and> find_spec mem (labelEntries t) lbl = - 1 \<and>
            labelEntries t' = labelEntries t @ [\<lparr>label = lbl, address = PC\<rparr>])"
proof (cases "strdup_ok \<and> find_spec mem (labelEntries t) lbl = - 1")
  case True
  with res have "addLabel mem True malloc_ok (Some t) lbl PC = Inr (table', err, r)"
    by simp
  from addLabel_new_result [OF wf _ this] True show ?thesis
    by blast
next
  case False
  then have "table' = Some t"
    using res wf
    by (cases strdup_ok) (auto simp: addLabel_duplicate addLabel_strdup_fails)
  with wf show ?thesis by simp
qed


lemma find_spec_absent: "mem lbl \<notin> set (map (entry_name mem) es) \<Longrightarrow> find_spec mem es lbl = - 1"
  by (induction es) (auto simp: find_spec_Cons, simp add: find_spec_def)

lemma find_spec_present:
  "mem lbl \<in> set (map (entry_name mem) es) \<Longrightarrow> list_all (\<lambda>e. address e \<noteq> - 1) es \<Longrightarrow>
   find_spec mem es lbl \<noteq> - 1"
  by (induction es) (auto simp: find_spec_Cons)

lemma in_int_range_succ:
  assumes "0 \<le> n" "2 * (n + 1) \<le> INT_MAX"
  shows "in_int_range (n + 1)" "in_int_range (2 * (n + 1))"
  using assms by (simp_all add: in_int_range_def INT_MIN_def)

text \<open>With the allocation granted and the arithmetic in range, adding a new name succeeds.\<close>

lemma addLabel_grow_total:
  assumes wf: "wf_table t" and new: "find_spec mem (labelEntries t) lbl = - 1"
    and full: "capacity t \<le> nbrLabels t" and rng: "2 * (nbrLabels t + 1) \<le> INT_MAX"
  shows "\<exists>t1. tableResize True (Some t) (2 * (nbrLabels t + 1)) = Inr (Some t1, [], 1) \<and>
           capacity t1 = 2 * (nbrLabels t + 1) \<and> nbrLabels t1 = nbrLabels t \<and>
           labelEntries t1 = labelEntries t \<and> wf_table t1 \<and>
           addLabel mem True True (Some t) lbl PC =
             Inr (Some (t1\<lparr>entries := Some ((block t1)[nat (nbrLabels t) :=
                                  Some \<lparr>label = lbl, address = PC\<rparr>]),
                            nbrLabels := nbrLabels t + 1\<rparr>), [], 1)"
proof -
  have n0: "0 \<le> nbrLabels t" using wf by (simp add: wf_table_def)
  note r = in_int_range_succ [OF n0 rng]
  from n0 have "0 \<le> 2 * (nbrLabels t + 1)" by simp
  from tableResize_wf [OF wf this] obtain t1 where
    t1: "tableResize True (Some t) (2 * (nbrLabels t + 1)) = Inr (Some t1, [], 1)"
      "capacity t1 = 2 * (nbrLabels t + 1)"
      "nbrLabels t1 = min (nbrLabels t) (2 * (nbrLabels t + 1))"
      "labelEntries t1 = take (nat (2 * (nbrLabels t + 1))) (labelEntries t)"
      "int (length (block t1)) = 2 * (nbrLabels t + 1)" "wf_table t1"
    by blast
  have nb: "nbrLabels t1 = nbrLabels t" using t1(3) n0 by simp
  have le: "labelEntries t1 = labelEntries t"
    using t1(4) wf_length [OF wf] n0 by simp
  have "nbrLabels t < int (length (block t1))" using t1(5) n0 by simp
  from writeEntry_in_block [OF n0 this]
  have w: "writeEntry t1 (nbrLabels t1) \<lparr>label = lbl, address = PC\<rparr> =
             Inr (t1\<lparr>entries := Some ((block t1)[nat (nbrLabels t) :=
                    Some \<lparr>label = lbl, address = PC\<rparr>])\<rparr>)"
    by (simp add: nb)
  have "addLabel mem True True (Some t) lbl PC =
          Inr (Some (t1\<lparr>entries := Some ((block t1)[nat (nbrLabels t) :=
                               Some \<lparr>label = lbl, address = PC\<rparr>]),
                         nbrLabels := nbrLabels t + 1\<rparr>), [], 1)"
    using full r t1(1) w nb by (simp add: addLabel_new_unfold [OF wf new])
  with t1 nb le show ?thesis by blast
qed

lemma addLabel_room_total:
  assumes wf: "wf_table t" and new: "find_spec mem (labelEntries t) lbl = - 1"
    and room: "nbrLabels t < capacity t" and rng: "nbrLabels t + 1 \<le> INT_MAX"
  shows "addLabel mem True malloc_ok (Some t) lbl PC =
           Inr (Some (t\<lparr>entries := Some ((block t)[nat (nbrLabels t) :=
                                Some \<lparr>label = lbl, address = PC\<rparr>]),
                         nbrLabels := nbrLabels t + 1\<rparr>), [], 1)"
proof -
  have n0: "0 \<le> nbrLabels t" using wf by (simp add: wf_table_def)
  have "nbrLabels t < int (length (block t))"
    using wf room by (simp add: wf_table_def)
  from writeEntry_in_block [OF n0 this]
  have w: "writeEntry t (nbrLabels t) \<lparr>label = lbl, address = PC\<rparr> =
             Inr (t\<lparr>entries := Some ((block t)[nat (nbrLabels t) :=
                    Some \<lparr>label = lbl, address = PC\<rparr>])\<rparr>)" .
  have "in_int_range (nbrLabels t + 1)"
    using n0 rng by (simp add: in_int_range_def INT_MIN_def)
  then show ?thesis
    using room w by (simp add: addLabel_new_unfold [OF wf new])
qed

subsection \<open>A caller that leaves its buffers alone\<close>

text \<open>
  While no buffer is written and no address is \<open>- 1\<close>, the calls of \<^verbatim>\<open>addLabel\<close>
  keep the names of the table distinct, and every entry is found under its name.
\<close>

lemma find_spec_distinct:
  "distinct (map (entry_name mem) es) \<Longrightarrow> e \<in> set es \<Longrightarrow> mem lbl = entry_name mem e \<Longrightarrow>
   find_spec mem es lbl = address e"
  by (induction es) (auto simp: find_spec_Cons)

lemma tableInit_inv:
  "\<exists>t0. tableInit malloc_ok (Some t) = Inr (Some t0, []) \<and> table_inv mem t0 \<and>
         labelEntries t0 = [] \<and> nbrLabels t0 = 0 \<and> capacity t0 = 0"
  by (simp add: tableInit_def verifyTableExists_def table_inv_def wf_table_def
        names_distinct_def names_def no_sentinel_def labelEntries_def block_def)

lemma addLabel_step_inv:
  assumes inv: "table_inv mem t" and pc: "PC \<noteq> - 1"
    and res: "addLabel mem strdup_ok malloc_ok (Some t) lbl PC = Inr (table', err, r)"
  shows "\<exists>t'. table' = Some t' \<and> table_inv mem t' \<and>
           (t' = t \<or>
            mem lbl \<notin> set (names mem t) \<and>
            labelEntries t' = labelEntries t @ [\<lparr>label = lbl, address = PC\<rparr>])"
proof -
  from inv have wf: "wf_table t" by (simp add: table_inv_def)
  from addLabel_step [OF wf res] obtain t' where
    t': "table' = Some t'" "wf_table t'"
      "t' = t \<or> strdup_ok \<and> find_spec mem (labelEntries t) lbl = - 1 \<and>
         labelEntries t' = labelEntries t @ [\<lparr>label = lbl, address = PC\<rparr>]"
    by blast
  show ?thesis
  proof (cases "t' = t")
    case True
    with t' inv show ?thesis by simp
  next
    case False
    with t'(3) have new: "find_spec mem (labelEntries t) lbl = - 1"
      and app: "labelEntries t' = labelEntries t @ [\<lparr>label = lbl, address = PC\<rparr>]"
      by simp_all
    from inv have "list_all (\<lambda>e. address e \<noteq> - 1) (labelEntries t)"
      by (simp add: table_inv_def no_sentinel_def)
    with new have notin: "mem lbl \<notin> set (names mem t)"
      unfolding names_def using find_spec_present by blast
    with inv app pc have "names_distinct mem t'" "no_sentinel t'"
      by (simp_all add: table_inv_def names_distinct_def names_def no_sentinel_def
            entry_name_def)
    with t' notin app show ?thesis by (simp add: table_inv_def)
  qed
qed

lemma run_calls_inv:
  "table_inv mem t \<Longrightarrow> list_all is_call steps \<Longrightarrow> list_all address_ok steps \<Longrightarrow>
   run mem t steps = Inr (mem', t') \<Longrightarrow> mem' = mem \<and> table_inv mem t'"
proof (induction steps arbitrary: t)
  case Nil
  then show ?case by simp
next
  case (Cons step steps)
  from Cons.prems(2) obtain s m l pc where c: "step = Call_addLabel s m l pc"
    by (cases step) simp_all
  from Cons.prems(3) c have pc: "pc \<noteq> - 1" by simp
  from Cons.prems(4) c obtain tab err r where
    a: "addLabel mem s m (Some t) l pc = Inr (tab, err, r)"
    by (cases "addLabel mem s m (Some t) l pc") auto
  from addLabel_step_inv [OF Cons.prems(1) pc a] obtain t1 where
    t1: "tab = Some t1" "table_inv mem t1"
    by blast
  from Cons.prems(4) c a t1(1) have "run mem t1 steps = Inr (mem', t')" by simp
  with Cons.IH [OF t1(2)] Cons.prems(2,3) show ?case by simp
qed

lemma findLabel_inv:
  assumes "table_inv mem t" "e \<in> set (labelEntries t)" "mem lbl = entry_name mem e"
  shows "findLabel mem (Some t) lbl = Inr ([], address e)"
proof -
  from assms(1) have wf: "wf_table t" and d: "distinct (map (entry_name mem) (labelEntries t))"
    by (simp_all add: table_inv_def names_distinct_def names_def)
  from find_spec_distinct [OF d assms(2,3)] wf show ?thesis
    by (simp add: findLabel_wf)
qed

text \<open>With every allocation granted and the counts in range, no call meets a fault.\<close>

lemma addLabel_no_fault:
  assumes wf: "wf_table t" and rng: "2 * (nbrLabels t + 1) \<le> INT_MAX"
  shows "\<exists>t' err r. addLabel mem strdup_ok True (Some t) lbl PC = Inr (Some t', err, r) \<and>
           wf_table t' \<and> nbrLabels t' \<le> nbrLabels t + 1"
proof -
  have n0: "0 \<le> nbrLabels t" using wf by (simp add: wf_table_def)
  consider "\<not> strdup_ok" | "strdup_ok" "find_spec mem (labelEntries t) lbl \<noteq> - 1"
    | "strdup_ok" "find_spec mem (labelEntries t) lbl = - 1" "capacity t \<le> nbrLabels t"
    | "strdup_ok" "find_spec mem (labelEntries t) lbl = - 1" "nbrLabels t < capacity t"
    by fastforce
  then obtain t' err r where
    res: "addLabel mem strdup_ok True (Some t) lbl PC = Inr (Some t', err, r)"
    and nb: "nbrLabels t' \<le> nbrLabels t + 1"
  proof cases
    case 1
    then show ?thesis using that [of t "[ERROR1]" 0]
      by (simp add: addLabel_strdup_fails)
  next
    case 2
    then show ?thesis using that [of t "[ERROR2]" 1] wf
      by (simp add: addLabel_duplicate)
  next
    case 3
    from addLabel_grow_total [OF wf 3(2) 3(3) rng, where PC = PC] 3(1) that show ?thesis
      by fastforce
  next
    case 4
    have "nbrLabels t + 1 \<le> INT_MAX" using rng n0 by simp
    from addLabel_room_total [OF wf 4(2) 4(3) this, where malloc_ok = True and PC = PC]
      4(1) that show ?thesis
      by fastforce
  qed
  from addLabel_step [OF wf res] have "wf_table t'" by blast
  with res nb show ?thesis by blast
qed

lemma run_total:
  "wf_table t \<Longrightarrow> list_all malloc_granted steps \<Longrightarrow>
   2 * (nbrLabels t + int (length steps)) \<le> INT_MAX \<Longrightarrow>
   \<exists>mem' t'. run mem t steps = Inr (mem', t')"
proof (induction steps arbitrary: mem t)
  case Nil
  then show ?case by simp
next
  case (Cons step steps)
  show ?case
  proof (cases step)
    case (Caller_writes p s)
    have rng: "2 * (nbrLabels t + int (length steps)) \<le> INT_MAX"
      using Cons.prems(3) by simp
    from Cons.prems(2) have rest: "list_all malloc_granted steps"
      by simp
    from Cons.IH [OF Cons.prems(1) rest rng]
    have "\<exists>mem' t'. run (mem(p := s)) t steps = Inr (mem', t')" .
    then show ?thesis
      unfolding Caller_writes by (simp only: run.simps)
  next
    case (Call_addLabel s m l pc)
    with Cons.prems(2) have m: "m" and rest: "list_all malloc_granted steps"
      by simp_all
    have "2 * (nbrLabels t + 1) \<le> INT_MAX"
      using Cons.prems(3) by simp
    from addLabel_no_fault [OF Cons.prems(1) this, where mem = mem and strdup_ok = s
        and lbl = l and PC = pc]
    obtain t1 err r where
      a: "addLabel mem s True (Some t) l pc = Inr (Some t1, err, r)"
      and t1: "wf_table t1" "nbrLabels t1 \<le> nbrLabels t + 1"
      by blast
    have "2 * (nbrLabels t1 + int (length steps)) \<le> INT_MAX"
      using Cons.prems(3) t1(2) by simp
    from Cons.IH [OF t1(1) rest this, of mem] obtain mem' t' where
      "run mem t1 steps = Inr (mem', t')" by blast
    with a Call_addLabel m show ?thesis by simp
  qed
qed

subsection \<open>The capacity bound\<close>

text \<open>
  \<^verbatim>\<open>tableInit\<close> establishes \<open>nbrLabels \<le> capacity\<close>, \<^verbatim>\<open>tableResize\<close> keeps it, and
  so does an \<^verbatim>\<open>addLabel\<close> whose \<^verbatim>\<open>malloc\<close> is granted.
\<close>

lemma capacity_bound_kept:
  assumes wf: "wf_table t" and le: "nbrLabels t \<le> capacity t"
  shows "tableInit malloc_ok (Some u) = Inr (Some t0, err0) \<longrightarrow> nbrLabels t0 \<le> capacity t0"
    and "tableResize malloc_ok (Some t) newSize = Inr (Some t1, err1, r1) \<longrightarrow>
           nbrLabels t1 \<le> capacity t1"
    and "addLabel mem strdup_ok True (Some t) lbl PC = Inr (Some t2, err2, r2) \<longrightarrow>
           nbrLabels t2 \<le> capacity t2"
proof -
  show "tableInit malloc_ok (Some u) = Inr (Some t0, err0) \<longrightarrow> nbrLabels t0 \<le> capacity t0"
    by (auto simp: tableInit_def verifyTableExists_def)
next
  show "tableResize malloc_ok (Some t) newSize = Inr (Some t1, err1, r1) \<longrightarrow>
           nbrLabels t1 \<le> capacity t1"
  proof (cases "malloc_ok \<and> 0 \<le> newSize")
    case True
    with tableResize_wf [OF wf, of newSize] show ?thesis by auto
  next
    case False
    with le show ?thesis by (auto simp: tableResize_fails)
  qed
next
  show "addLabel mem strdup_ok True (Some t) lbl PC = Inr (Some t2, err2, r2) \<longrightarrow>
           nbrLabels t2 \<le> capacity t2"
  proof
    assume res: "addLabel mem strdup_ok True (Some t) lbl PC = Inr (Some t2, err2, r2)"
    from addLabel_step [OF wf res] consider "t2 = t"
      | "strdup_ok" "find_spec mem (labelEntries t) lbl = - 1" "t2 \<noteq> t"
      by blast
    then show "nbrLabels t2 \<le> capacity t2"
    proof cases
      case 1
      with le show ?thesis by simp
    next
      case 2
      with res have res': "addLabel mem True True (Some t) lbl PC = Inr (Some t2, err2, r2)"
        by simp
      from addLabel_new_result [OF wf 2(2) res'] have
        nb: "nbrLabels t2 = nbrLabels t + 1"
        and cap: "capacity t2 = capacity t \<or>
                  capacity t \<le> nbrLabels t \<and> capacity t2 = 2 * (nbrLabels t + 1)"
        by auto
      have n0: "0 \<le> nbrLabels t" using wf by (simp add: wf_table_def)
      show ?thesis
      proof (cases "nbrLabels t < capacity t")
        case True
        with cap nb n0 show ?thesis by auto
      next
        case False
        then have full: "capacity t \<le> nbrLabels t" by simp
        have rng: "2 * (nbrLabels t + 1) \<le> INT_MAX"
        proof (rule ccontr)
          assume "\<not> 2 * (nbrLabels t + 1) \<le> INT_MAX"
          then have "\<not> in_int_range (2 * (nbrLabels t + 1))"
            by (simp add: in_int_range_def)
          with full res' show False
            by (simp add: addLabel_new_unfold [OF wf 2(2)])
        qed
        from addLabel_grow_total [OF wf 2(2) full rng, where PC = PC] res' nb n0 show ?thesis
          by auto
      qed
    qed
  qed
qed

section \<open>The claims\<close>

subsection \<open>A missing table\<close>

text \<open>
  C8: every operation tests the handle first. For a \<^verbatim>\<open>NULL\<close> handle it reports that
  there is no table and returns its failure result: \<^verbatim>\<open>findLabel\<close> returns \<open>- 1\<close>,
  \<^verbatim>\<open>addLabel\<close> and \<^verbatim>\<open>tableResize\<close> return 0, \<^verbatim>\<open>tableInit\<close> returns. Nothing
  is allocated or written, whatever the allocator would have done: the handle that
  comes back is \<^verbatim>\<open>NULL\<close> as before, and no string is read. \<^verbatim>\<open>tableInit\<close> writes the
  message twice, and \<^verbatim>\<open>printLabels\<close> makes the test itself and reports on the
  standard output.
\<close>

theorem null_table_reported:
  "verifyTableExists None = ([ERROR0], 0) \<and>
   tableInit malloc_ok None = Inr (None, [ERROR0, ERROR0]) \<and>
   findLabel mem None lbl = Inr ([ERROR0], - 1) \<and>
   addLabel mem strdup_ok malloc_ok None lbl PC = Inr (None, [ERROR0], 0) \<and>
   tableResize malloc_ok None newSize = Inr (None, [ERROR0], 0) \<and>
   printLabels mem None = Inr [''Label Table is a NULL pointer.'' @ [CHR 0x0A]]"
  by (simp add: verifyTableExists_def tableInit_def findLabel_def addLabel_def
        tableResize_def printLabels_def)

subsection \<open>The messages of \<^verbatim>\<open>addLabel\<close>\<close>

text \<open>
  C3: the claim is that a duplicate label is reported as such and a failed allocation
  as such. The code does the opposite. Adding \<open>A\<close> to a table that holds \<open>A\<close> leaves the
  table as it is, returns 1 and writes the message of \<^verbatim>\<open>ERROR2\<close>, which is about
  memory; a failing \<^verbatim>\<open>strdup\<close> returns 0 and writes the message of \<^verbatim>\<open>ERROR1\<close>,
  which is about a duplicate label. In the memory of the example the buffers 1 and
  2 hold \<open>A\<close> and the buffer 3 holds \<open>B\<close>; the entry of the table points to buffer 1.
\<close>

theorem duplicate_reports_allocation_message:
  "addLabel ((\<lambda>p. [])(1 := ''A'', 2 := ''A'', 3 := ''B'')) True malloc_ok
     (Some \<lparr>capacity = 2, nbrLabels = 1,
            entries = Some [Some \<lparr>label = 1, address = 0\<rparr>, None]\<rparr>) 2 4
   = Inr (Some \<lparr>capacity = 2, nbrLabels = 1,
                entries = Some [Some \<lparr>label = 1, address = 0\<rparr>, None]\<rparr>,
          [''Error: cannot allocate space in memory.'' @ [CHR 0x0A]], 1) \<and>
   addLabel ((\<lambda>p. [])(1 := ''A'', 2 := ''A'', 3 := ''B'')) False malloc_ok
     (Some \<lparr>capacity = 2, nbrLabels = 1,
            entries = Some [Some \<lparr>label = 1, address = 0\<rparr>, None]\<rparr>) 3 4
   = Inr (Some \<lparr>capacity = 2, nbrLabels = 1,
                entries = Some [Some \<lparr>label = 1, address = 0\<rparr>, None]\<rparr>,
          [''Error: a duplicate label was found.'' @ [CHR 0x0A]], 0)"
  by (simp add: addLabel_def verifyTableExists_def findLabel_def
        findLabel_loop.simps [of _ _ _ 0] readEntry_def ERROR1_def ERROR2_def)

subsection \<open>A failed allocation while growing\<close>

text \<open>
  C5: the claim is that \<open>capacity \<ge> count\<close> holds after every mutating operation. On
  a table fresh from \<^verbatim>\<open>tableInit\<close> (capacity 0, a block of one slot), an
  \<^verbatim>\<open>addLabel\<close> whose \<^verbatim>\<open>tableResize\<close> cannot allocate goes on, writes the entry
  into the one slot and counts it: the table ends with one label and capacity 0.
\<close>

theorem failed_growth_breaks_capacity_bound:
  "tableInit True (Some \<lparr>capacity = 0, nbrLabels = 0, entries = None\<rparr>)
     = Inr (Some \<lparr>capacity = 0, nbrLabels = 0, entries = Some [None]\<rparr>, []) \<and>
   addLabel mem True False (Some \<lparr>capacity = 0, nbrLabels = 0, entries = Some [None]\<rparr>) 1 0
     = Inr (Some \<lparr>capacity = 0, nbrLabels = 1,
                  entries = Some [Some \<lparr>label = 1, address = 0\<rparr>]\<rparr>, [ERROR2], 1) \<and>
   \<not> (capacity \<lparr>capacity = 0, nbrLabels = 1,
                  entries = Some [Some \<lparr>label = 1, address = 0\<rparr>]\<rparr>
        \<ge> nbrLabels \<lparr>capacity = 0, nbrLabels = 1,
                  entries = Some [Some \<lparr>label = 1, address = 0\<rparr>]\<rparr>)"
  by (simp add: tableInit_def addLabel_def verifyTableExists_def findLabel_def
        findLabel_loop.simps [of _ _ _ 0] tableResize_def writeEntry_def
        in_int_range_def INT_MAX_def INT_MIN_def)

text \<open>
  C7: the claim is that a failed allocation while growing makes \<^verbatim>\<open>addLabel\<close> return
  0 and append nothing. The message is written (by \<^verbatim>\<open>tableResize\<close>), but
  \<^verbatim>\<open>addLabel\<close> does not look at what \<^verbatim>\<open>tableResize\<close> returned: on a fresh table it
  appends the entry and returns 1; on a full table of two entries (\<open>A\<close> and \<open>B\<close>, in
  the buffers 1 and 2) it writes the entry for \<open>C\<close> past the end of the block.
\<close>

theorem failed_growth_not_fatal:
  "addLabel mem True False (Some \<lparr>capacity = 0, nbrLabels = 0, entries = Some [None]\<rparr>) lbl PC
     = Inr (Some \<lparr>capacity = 0, nbrLabels = 1,
                  entries = Some [Some \<lparr>label = lbl, address = PC\<rparr>]\<rparr>, [ERROR2], 1) \<and>
   addLabel ((\<lambda>p. [])(1 := ''A'', 2 := ''B'', 3 := ''C'')) True False
     (Some \<lparr>capacity = 2, nbrLabels = 2,
            entries = Some [Some \<lparr>label = 1, address = 0\<rparr>,
                            Some \<lparr>label = 2, address = 4\<rparr>]\<rparr>) 3 8
     = Inl OutOfBounds"
  by (simp add: addLabel_def verifyTableExists_def findLabel_def
        findLabel_loop.simps [of _ _ _ 0] findLabel_loop.simps [of _ _ _ 1]
        findLabel_loop.simps [of _ _ _ 2] readEntry_def tableResize_def writeEntry_def
        in_int_range_def INT_MAX_def INT_MIN_def)

subsection \<open>A fresh table\<close>

text \<open>
  C10: \<^verbatim>\<open>tableInit\<close> on a table sets the number of labels and the capacity to 0,
  whatever its allocation does. The first \<^verbatim>\<open>addLabel\<close> therefore finds
  \<open>nbrLabels \<ge> capacity\<close> and calls \<^verbatim>\<open>tableResize\<close> with \<open>2 * (0 + 1) = 2\<close>; when
  that succeeds the table has capacity 2 and the new entry in its first slot. When
  it fails, the message of \<^verbatim>\<open>tableResize\<close> shows that it was called.
\<close>

theorem first_addLabel_resizes:
  "tableInit malloc_ok (Some t) =
     Inr (Some (t\<lparr>capacity := 0, entries := (if malloc_ok then Some [None] else None),
                  nbrLabels := 0\<rparr>), []) \<and>
   (\<exists>t0. tableInit malloc_ok (Some t) = Inr (Some t0, []) \<and>
      nbrLabels t0 = 0 \<and> capacity t0 = 0 \<and> capacity t0 \<le> nbrLabels t0 \<and>
      tableResize True (Some t0) (2 * (nbrLabels t0 + 1)) =
        Inr (Some (t0\<lparr>capacity := 2, entries := Some [None, None]\<rparr>), [], 1) \<and>
      addLabel mem True True (Some t0) lbl PC =
        Inr (Some (t0\<lparr>capacity := 2, nbrLabels := 1,
                entries := Some [Some \<lparr>label = lbl, address = PC\<rparr>, None]\<rparr>), [], 1) \<and>
      addLabel mem True False (Some t0) lbl PC =
        (if malloc_ok
         then Inr (Some (t0\<lparr>nbrLabels := 1,
                entries := Some [Some \<lparr>label = lbl, address = PC\<rparr>]\<rparr>), [ERROR2], 1)
         else Inl NullDereference))"
  by (simp add: tableInit_def addLabel_def verifyTableExists_def findLabel_def
        findLabel_loop.simps [of _ _ _ 0] tableResize_def writeEntry_def
        in_int_range_def INT_MAX_def INT_MIN_def numeral_2_eq_2)

subsection \<open>Resizing\<close>

text \<open>
  C4: on a well-formed table and for every \<open>newSize\<close>, a \<^verbatim>\<open>tableResize\<close> that
  returns 1 has set the capacity to \<open>newSize\<close> and the number of labels to the smaller
  of the old number and \<open>newSize\<close>, and has kept exactly that many entries, the first
  ones, in their order, with their labels (and so their names) and addresses. This covers shrinking below
  the number of labels, which is not an error. The call returns 1 when the allocator
  grants the block and \<open>newSize\<close> is not negative; otherwise it returns 0 and the
  table is as before.
\<close>

theorem tableResize_keeps_prefix:
  assumes "wf_table t"
  shows "(tableResize malloc_ok (Some t) newSize = Inr (table', err, 1) \<longrightarrow>
            (\<exists>t'. table' = Some t' \<and> err = [] \<and>
                capacity t' = newSize \<and>
                nbrLabels t' = min (nbrLabels t) newSize \<and>
                labelEntries t' = take (nat (min (nbrLabels t) newSize)) (labelEntries t) \<and>
                wf_table t')) \<and>
         (malloc_ok \<and> 0 \<le> newSize \<longrightarrow>
            (\<exists>t'. tableResize malloc_ok (Some t) newSize = Inr (Some t', [], 1))) \<and>
         (\<not> (malloc_ok \<and> 0 \<le> newSize) \<longrightarrow>
            tableResize malloc_ok (Some t) newSize = Inr (Some t, [ERROR2], 0))"
proof (intro conjI impI)
  assume res: "tableResize malloc_ok (Some t) newSize = Inr (table', err, 1)"
  have ok: "malloc_ok \<and> 0 \<le> newSize"
  proof (rule ccontr)
    assume "\<not> (malloc_ok \<and> 0 \<le> newSize)"
    then have "tableResize malloc_ok (Some t) newSize = Inr (Some t, [ERROR2], 0)"
      by (rule tableResize_fails)
    with res show False by simp
  qed
  then have n: "0 \<le> newSize" and m: "malloc_ok = True" by simp_all
  from tableResize_wf [OF assms n] obtain t' where
    t': "tableResize True (Some t) newSize = Inr (Some t', [], 1)"
      "capacity t' = newSize" "nbrLabels t' = min (nbrLabels t) newSize"
      "labelEntries t' = take (nat newSize) (labelEntries t)" "wf_table t'"
    by blast
  have "0 \<le> nbrLabels t" using assms by (simp add: wf_table_def)
  then have "take (nat newSize) (labelEntries t)
      = take (nat (min (nbrLabels t) newSize)) (labelEntries t)"
    using wf_length [OF assms] n by (auto simp: min_def)
  with t' m res show "\<exists>t'. table' = Some t' \<and> err = [] \<and>
      capacity t' = newSize \<and> nbrLabels t' = min (nbrLabels t) newSize \<and>
      labelEntries t' = take (nat (min (nbrLabels t) newSize)) (labelEntries t) \<and>
      wf_table t'"
    by auto
next
  assume "malloc_ok \<and> 0 \<le> newSize"
  with tableResize_wf [OF assms, of newSize]
  show "\<exists>t'. tableResize malloc_ok (Some t) newSize = Inr (Some t', [], 1)"
    by auto
next
  assume "\<not> (malloc_ok \<and> 0 \<le> newSize)"
  then show "tableResize malloc_ok (Some t) newSize = Inr (Some t, [ERROR2], 0)"
    by (rule tableResize_fails)
qed

text \<open>An instance: a table of three entries is cut down to two; a refused allocation.\<close>

theorem tableResize_keeps_prefix_witness:
  "wf_table \<lparr>capacity = 4, nbrLabels = 3,
      entries = Some [Some \<lparr>label = 1, address = 0\<rparr>, Some \<lparr>label = 2, address = 4\<rparr>,
                      Some \<lparr>label = 3, address = 12\<rparr>, None]\<rparr> \<and>
   (\<exists>t'. tableResize True
            (Some \<lparr>capacity = 4, nbrLabels = 3,
               entries = Some [Some \<lparr>label = 1, address = 0\<rparr>,
                               Some \<lparr>label = 2, address = 4\<rparr>,
                               Some \<lparr>label = 3, address = 12\<rparr>, None]\<rparr>) 2
          = Inr (Some t', [], 1) \<and>
        capacity t' = 2 \<and> nbrLabels t' = 2 \<and>
        labelEntries t' = [\<lparr>label = 1, address = 0\<rparr>, \<lparr>label = 2, address = 4\<rparr>]) \<and>
   tableResize False
            (Some \<lparr>capacity = 4, nbrLabels = 3,
               entries = Some [Some \<lparr>label = 1, address = 0\<rparr>,
                               Some \<lparr>label = 2, address = 4\<rparr>,
                               Some \<lparr>label = 3, address = 12\<rparr>, None]\<rparr>) 2
     = Inr (Some \<lparr>capacity = 4, nbrLabels = 3,
               entries = Some [Some \<lparr>label = 1, address = 0\<rparr>,
                               Some \<lparr>label = 2, address = 4\<rparr>,
                               Some \<lparr>label = 3, address = 12\<rparr>, None]\<rparr>, [ERROR2], 0)"
proof -
  let ?t = "\<lparr>capacity = 4, nbrLabels = 3,
      entries = Some [Some \<lparr>label = 1, address = 0\<rparr>, Some \<lparr>label = 2, address = 4\<rparr>,
                      Some \<lparr>label = 3, address = 12\<rparr>, None]\<rparr>"
  have wf: "wf_table ?t"
    by (simp add: wf_table_def block_def)
  have es: "labelEntries ?t = [\<lparr>label = 1, address = 0\<rparr>, \<lparr>label = 2, address = 4\<rparr>,
      \<lparr>label = 3, address = 12\<rparr>]"
    by (simp add: labelEntries_def block_def)
  have rs: "tableResize True (Some ?t) 2
      = Inr (Some \<lparr>capacity = 2, nbrLabels = 2,
               entries = Some [Some \<lparr>label = 1, address = 0\<rparr>,
                               Some \<lparr>label = 2, address = 4\<rparr>]\<rparr>, [], 1)"
    by code_simp
  from tableResize_keeps_prefix [OF wf, where malloc_ok = True and newSize = 2
      and table' = "Some \<lparr>capacity = 2, nbrLabels = 2,
               entries = Some [Some \<lparr>label = 1, address = 0\<rparr>,
                               Some \<lparr>label = 2, address = 4\<rparr>]\<rparr>" and err = "[]"]
    tableResize_keeps_prefix [OF wf, where malloc_ok = False and newSize = 2]
  show ?thesis
    using wf rs by (auto simp: es simp del: One_nat_def)
qed

subsection \<open>Growing\<close>

text \<open>
  C6: on a well-formed table whose number of labels has reached its capacity
  (the test of the code is \<open>nbrLabels \<ge> capacity\<close>, which includes equality), adding
  a name that no entry has, with both allocations granted, first resizes the table to exactly
  \<open>2 * (nbrLabels + 1)\<close>, which leaves the entries as they are and is more than the
  number of labels; the entry is then stored behind the others and the number of
  labels goes up by one. The hypothesis \<open>2 * (nbrLabels + 1) \<le> INT_MAX\<close> says that
  the new capacity is an \<^verbatim>\<open>int\<close>.
\<close>

theorem addLabel_grows_full_table:
  assumes "wf_table t" and "mem lbl \<notin> set (names mem t)"
    and "capacity t \<le> nbrLabels t" and "2 * (nbrLabels t + 1) \<le> INT_MAX"
  shows "\<exists>t1 t'.
           tableResize True (Some t) (2 * (nbrLabels t + 1)) = Inr (Some t1, [], 1) \<and>
           capacity t1 = 2 * (nbrLabels t + 1) \<and> nbrLabels t1 = nbrLabels t \<and>
           labelEntries t1 = labelEntries t \<and> nbrLabels t1 < capacity t1 \<and>
           addLabel mem True True (Some t) lbl PC = Inr (Some t', [], 1) \<and>
           t' = t1\<lparr>entries := Some ((block t1)[nat (nbrLabels t) :=
                                  Some \<lparr>label = lbl, address = PC\<rparr>]),
                   nbrLabels := nbrLabels t + 1\<rparr> \<and>
           capacity t' = 2 * (nbrLabels t + 1) \<and> nbrLabels t' = nbrLabels t + 1 \<and>
           labelEntries t' = labelEntries t @ [\<lparr>label = lbl, address = PC\<rparr>] \<and>
           nbrLabels t' \<le> capacity t'"
proof -
  have n0: "0 \<le> nbrLabels t" using assms(1) by (simp add: wf_table_def)
  have new: "find_spec mem (labelEntries t) lbl = - 1"
    using assms(2) unfolding names_def by (rule find_spec_absent)
  from addLabel_grow_total [OF assms(1) new assms(3,4), where PC = PC] obtain t1 where
    t1: "tableResize True (Some t) (2 * (nbrLabels t + 1)) = Inr (Some t1, [], 1)"
      "capacity t1 = 2 * (nbrLabels t + 1)" "nbrLabels t1 = nbrLabels t"
      "labelEntries t1 = labelEntries t" "wf_table t1"
    and a: "addLabel mem True True (Some t) lbl PC =
             Inr (Some (t1\<lparr>entries := Some ((block t1)[nat (nbrLabels t) :=
                                  Some \<lparr>label = lbl, address = PC\<rparr>]),
                            nbrLabels := nbrLabels t + 1\<rparr>), [], 1)"
    by blast
  let ?t' = "t1\<lparr>entries := Some ((block t1)[nat (nbrLabels t) :=
                                  Some \<lparr>label = lbl, address = PC\<rparr>]),
                 nbrLabels := nbrLabels t + 1\<rparr>"
  from addLabel_new_result [OF assms(1) new a] t1(4) have
    es: "labelEntries ?t' = labelEntries t @ [\<lparr>label = lbl, address = PC\<rparr>]"
    by simp
  have "nbrLabels t1 < capacity t1" "capacity ?t' = 2 * (nbrLabels t + 1)"
    "nbrLabels ?t' = nbrLabels t + 1" "nbrLabels ?t' \<le> capacity ?t'"
    using t1(2,3) n0 by simp_all
  with t1 a es show ?thesis by blast
qed

text \<open>An instance: a fresh table, whose capacity is zero, grows to capacity 2.\<close>

theorem addLabel_grows_full_table_witness:
  "wf_table \<lparr>capacity = 0, nbrLabels = 0, entries = Some [None]\<rparr> \<and>
   tableResize True (Some \<lparr>capacity = 0, nbrLabels = 0, entries = Some [None]\<rparr>) 2
     = Inr (Some \<lparr>capacity = 2, nbrLabels = 0, entries = Some [None, None]\<rparr>, [], 1) \<and>
   addLabel ((\<lambda>p. [])(1 := ''A'')) True True
       (Some \<lparr>capacity = 0, nbrLabels = 0, entries = Some [None]\<rparr>) 1 0
     = Inr (Some \<lparr>capacity = 2, nbrLabels = 1,
                  entries = Some [Some \<lparr>label = 1, address = 0\<rparr>, None]\<rparr>, [], 1)"
proof -
  let ?t = "\<lparr>capacity = 0, nbrLabels = 0, entries = Some [None]\<rparr>"
  have wf: "wf_table ?t" by (simp add: wf_table_def block_def)
  have es: "labelEntries ?t = []" by (simp add: labelEntries_def)
  have rs: "tableResize True (Some ?t) 2
     = Inr (Some \<lparr>capacity = 2, nbrLabels = 0, entries = Some [None, None]\<rparr>, [], 1)"
    by (simp add: tableResize_def verifyTableExists_def numeral_2_eq_2)
  from addLabel_grows_full_table [OF wf, where mem = "(\<lambda>p. [])(1 := ''A'')"
      and lbl = 1 and PC = 0]
  show ?thesis
    using wf rs by (auto simp: es names_def INT_MAX_def block_def simp del: One_nat_def)
qed

subsection \<open>The value returned by \<^verbatim>\<open>addLabel\<close>\<close>

text \<open>
  C9: whenever \<^verbatim>\<open>addLabel\<close> returns, it returns 0 if the handle is \<^verbatim>\<open>NULL\<close> or
  \<^verbatim>\<open>strdup\<close> failed, and 1 otherwise. Both happen: a \<^verbatim>\<open>NULL\<close> handle or a failed
  \<^verbatim>\<open>strdup\<close> gives 0 with the table as before; a name that \<^verbatim>\<open>findLabel\<close> finds gives
  1 with the table as before; a name it does not find gives 1 with the entry
  appended. So the value 1 does not tell an insertion from a rejected duplicate.
\<close>

theorem addLabel_return_value:
  "(addLabel mem strdup_ok malloc_ok table lbl PC = Inr (table', err, r) \<longrightarrow>
      r = (if table = None \<or> \<not> strdup_ok then 0 else 1)) \<and>
   (table = None \<or> \<not> strdup_ok \<longrightarrow>
      (\<exists>err. addLabel mem strdup_ok malloc_ok table lbl PC = Inr (table, err, 0))) \<and>
   (wf_table t \<and> find_spec mem (labelEntries t) lbl \<noteq> - 1 \<longrightarrow>
      (\<exists>err. addLabel mem True malloc_ok (Some t) lbl PC = Inr (Some t, err, 1))) \<and>
   (wf_table t \<and> find_spec mem (labelEntries t) lbl = - 1 \<and> 2 * (nbrLabels t + 1) \<le> INT_MAX \<longrightarrow>
      (\<exists>t'. addLabel mem True True (Some t) lbl PC = Inr (Some t', [], 1) \<and>
            labelEntries t' = labelEntries t @ [\<lparr>label = lbl, address = PC\<rparr>]))"
proof (intro conjI impI)
  assume "addLabel mem strdup_ok malloc_ok table lbl PC = Inr (table', err, r)"
  then show "r = (if table = None \<or> \<not> strdup_ok then 0 else 1)"
    by (auto simp: addLabel_def verifyTableExists_def
          split: if_splits sum.splits prod.splits option.splits)
next
  assume "table = None \<or> \<not> strdup_ok"
  then show "\<exists>err. addLabel mem strdup_ok malloc_ok table lbl PC = Inr (table, err, 0)"
    by (auto simp: addLabel_def verifyTableExists_def)
next
  assume "wf_table t \<and> find_spec mem (labelEntries t) lbl \<noteq> - 1"
  then show "\<exists>err. addLabel mem True malloc_ok (Some t) lbl PC = Inr (Some t, err, 1)"
    by (simp add: addLabel_duplicate)
next
  assume a: "wf_table t \<and> find_spec mem (labelEntries t) lbl = - 1 \<and> 2 * (nbrLabels t + 1) \<le> INT_MAX"
  then have wf: "wf_table t" and new: "find_spec mem (labelEntries t) lbl = - 1" by simp_all
  from addLabel_no_fault [OF wf, where mem = mem and strdup_ok = True and lbl = lbl
      and PC = PC] a obtain t' err r where
    res: "addLabel mem True True (Some t) lbl PC = Inr (Some t', err, r)"
    by blast
  from addLabel_new_result [OF wf new res] have
    "labelEntries t' = labelEntries t @ [\<lparr>label = lbl, address = PC\<rparr>]" "r = 1"
    by simp_all
  moreover have "err = []"
  proof (cases "capacity t \<le> nbrLabels t")
    case True
    from addLabel_grow_total [OF wf new True, where PC = PC] a res show ?thesis by auto
  next
    case False
    then have "nbrLabels t < capacity t" by simp
    moreover have "nbrLabels t + 1 \<le> INT_MAX"
      using a wf by (simp add: wf_table_def)
    ultimately show ?thesis
      using addLabel_room_total [OF wf new, where malloc_ok = True and PC = PC] res by simp
  qed
  ultimately show "\<exists>t'. addLabel mem True True (Some t) lbl PC = Inr (Some t', [], 1) \<and>
            labelEntries t' = labelEntries t @ [\<lparr>label = lbl, address = PC\<rparr>]"
    using res by blast
qed

text \<open>
  An instance: a duplicate, a new name and a failed \<^verbatim>\<open>strdup\<close> on the same table.
  The buffers 1 and 2 hold \<open>A\<close>, the buffer 3 holds \<open>B\<close>.
\<close>

theorem addLabel_return_value_witness:
  "addLabel ((\<lambda>p. [])(1 := ''A'', 2 := ''A'', 3 := ''B'')) True True
       (Some \<lparr>capacity = 2, nbrLabels = 1,
              entries = Some [Some \<lparr>label = 1, address = 0\<rparr>, None]\<rparr>) 2 8
     = Inr (Some \<lparr>capacity = 2, nbrLabels = 1,
                  entries = Some [Some \<lparr>label = 1, address = 0\<rparr>, None]\<rparr>, [ERROR2], 1) \<and>
   (\<exists>t'. addLabel ((\<lambda>p. [])(1 := ''A'', 2 := ''A'', 3 := ''B'')) True True
       (Some \<lparr>capacity = 2, nbrLabels = 1,
              entries = Some [Some \<lparr>label = 1, address = 0\<rparr>, None]\<rparr>) 3 4
        = Inr (Some t', [], 1) \<and>
      labelEntries t' = [\<lparr>label = 1, address = 0\<rparr>, \<lparr>label = 3, address = 4\<rparr>]) \<and>
   (\<exists>err. addLabel ((\<lambda>p. [])(1 := ''A'', 2 := ''A'', 3 := ''B'')) False True
       (Some \<lparr>capacity = 2, nbrLabels = 1,
              entries = Some [Some \<lparr>label = 1, address = 0\<rparr>, None]\<rparr>) 3 4
     = Inr (Some \<lparr>capacity = 2, nbrLabels = 1,
                  entries = Some [Some \<lparr>label = 1, address = 0\<rparr>, None]\<rparr>, err, 0))"
proof -
  let ?m = "(\<lambda>p. [])(1 := ''A'', 2 := ''A'', 3 := ''B'') :: memory"
  let ?t = "\<lparr>capacity = 2, nbrLabels = 1,
               entries = Some [Some \<lparr>label = 1, address = 0\<rparr>, None]\<rparr>"
  have wf: "wf_table ?t"
    by (simp add: wf_table_def block_def)
  have es: "labelEntries ?t = [\<lparr>label = 1, address = 0\<rparr>]"
    by (simp add: labelEntries_def block_def)
  have dup: "addLabel ?m True True (Some ?t) 2 8 = Inr (Some ?t, [ERROR2], 1)"
    by (simp add: addLabel_def verifyTableExists_def findLabel_def
        findLabel_loop.simps [of _ _ _ 0] readEntry_def)
  from addLabel_return_value [where mem = ?m and table = "Some ?t" and strdup_ok = True
      and malloc_ok = True and lbl = 2 and PC = 8 and table' = "Some ?t"
      and err = "[ERROR2]" and r = 1 and t = ?t]
    addLabel_return_value [where mem = ?m and table = "Some ?t" and strdup_ok = False
      and malloc_ok = True and lbl = 3 and PC = 4 and t = ?t]
  show ?thesis
    using wf dup by (simp add: es find_spec_def entry_name_def INT_MAX_def del: One_nat_def)
qed

subsection \<open>Names that the caller overwrites\<close>

text \<open>
  C1: the claim is that, whatever sequence of \<^verbatim>\<open>addLabel\<close> calls is made, the table
  never holds two entries with the same name, and that adding a name that is in the
  table changes nothing. \<^verbatim>\<open>addLabel\<close> makes a copy of the name with \<^verbatim>\<open>strdup\<close>,
  ``a dynamically allocated version of label that will persist'', but the entry
  receives the pointer of the caller and not the copy. The names of the table are
  thus the present contents of the caller's buffers. A caller adds \<open>A\<close> from buffer
  1 with address 0 and \<open>B\<close> from buffer 2 with address 4: the names are \<open>A\<close> and
  \<open>B\<close>. It then reads \<open>B\<close> into buffer 1 and adds \<open>C\<close> from buffer 3 with address 8:
  the table holds the names \<open>B\<close>, \<open>B\<close> and \<open>C\<close>. Lemma \<open>run_calls_inv\<close> shows that
  the names stay distinct as long as no buffer is written and no address is \<open>- 1\<close>.
\<close>

theorem overwritten_buffer_duplicates_name:
  "tableInit True (Some \<lparr>capacity = 0, nbrLabels = 0, entries = None\<rparr>)
     = Inr (Some \<lparr>capacity = 0, nbrLabels = 0, entries = Some [None]\<rparr>, []) \<and>
   run ((\<lambda>p. [])(1 := ''A'', 2 := ''B'', 3 := ''C''))
       \<lparr>capacity = 0, nbrLabels = 0, entries = Some [None]\<rparr>
       [Call_addLabel True True 1 0, Call_addLabel True True 2 4]
     = Inr ((\<lambda>p. [])(1 := ''A'', 2 := ''B'', 3 := ''C''),
            \<lparr>capacity = 2, nbrLabels = 2,
              entries = Some [Some \<lparr>label = 1, address = 0\<rparr>,
                              Some \<lparr>label = 2, address = 4\<rparr>]\<rparr>) \<and>
   names ((\<lambda>p. [])(1 := ''A'', 2 := ''B'', 3 := ''C''))
       \<lparr>capacity = 2, nbrLabels = 2,
         entries = Some [Some \<lparr>label = 1, address = 0\<rparr>,
                         Some \<lparr>label = 2, address = 4\<rparr>]\<rparr> = [''A'', ''B''] \<and>
   run ((\<lambda>p. [])(1 := ''A'', 2 := ''B'', 3 := ''C''))
       \<lparr>capacity = 0, nbrLabels = 0, entries = Some [None]\<rparr>
       [Call_addLabel True True 1 0, Call_addLabel True True 2 4,
        Caller_writes 1 ''B'', Call_addLabel True True 3 8]
     = Inr ((\<lambda>p. [])(1 := ''A'', 2 := ''B'', 3 := ''C'', 1 := ''B''),
            \<lparr>capacity = 6, nbrLabels = 3,
              entries = Some [Some \<lparr>label = 1, address = 0\<rparr>,
                              Some \<lparr>label = 2, address = 4\<rparr>,
                              Some \<lparr>label = 3, address = 8\<rparr>, None, None, None]\<rparr>) \<and>
   names ((\<lambda>p. [])(1 := ''A'', 2 := ''B'', 3 := ''C'', 1 := ''B''))
       \<lparr>capacity = 6, nbrLabels = 3,
         entries = Some [Some \<lparr>label = 1, address = 0\<rparr>,
                         Some \<lparr>label = 2, address = 4\<rparr>,
                         Some \<lparr>label = 3, address = 8\<rparr>, None, None, None]\<rparr>
     = [''B'', ''B'', ''C''] \<and>
   \<not> names_distinct ((\<lambda>p. [])(1 := ''A'', 2 := ''B'', 3 := ''C'', 1 := ''B''))
       \<lparr>capacity = 6, nbrLabels = 3,
         entries = Some [Some \<lparr>label = 1, address = 0\<rparr>,
                         Some \<lparr>label = 2, address = 4\<rparr>,
                         Some \<lparr>label = 3, address = 8\<rparr>, None, None, None]\<rparr>"
  by (simp add: tableInit_def addLabel_def verifyTableExists_def findLabel_def
        readEntry_def writeEntry_def tableResize_def in_int_range_def INT_MAX_def
        INT_MIN_def findLabel_loop.simps [of _ _ _ 0] findLabel_loop.simps [of _ _ _ 1]
        findLabel_loop.simps [of _ _ _ 2] findLabel_loop.simps [of _ _ _ 3]
        names_distinct_def names_def entry_name_def labelEntries_def block_def
        eval_nat_numeral)

subsection \<open>Lookup of names that the caller overwrites\<close>

text \<open>
  C2: the claim is that \<^verbatim>\<open>findLabel\<close> returns the address of the first entry with
  the name and \<open>- 1\<close> when there is none or no table, that every entry added is
  found under its name with the address given when it was added, and that a name
  never added is not found. The first part holds (lemmas \<open>findLabel_NULL\<close> and
  \<open>findLabel_wf\<close>), where the name of an entry is the present content of the
  caller's buffer. The second part fails for the reason given for C1: the entry
  holds the pointer of the caller. A caller with one line buffer, buffer 1, adds \<open>A\<close>
  with address 0, and \<open>A\<close> is found with address 0. It then reads \<open>B\<close> into the
  buffer and adds it with address 4: \<^verbatim>\<open>addLabel\<close> finds the name in the table and
  adds nothing. Now \<open>A\<close>, which was added, is not found, and \<open>B\<close> is found with
  address 0 and not 4. Buffers 2 and 3 hold the names \<open>A\<close> and \<open>B\<close> that are looked
  up. Lemma \<open>findLabel_inv\<close> shows that every entry is found under its name as long
  as no buffer is written and no address is \<open>- 1\<close>.
\<close>

theorem overwritten_buffer_misleads_lookup:
  "run ((\<lambda>p. [])(1 := ''A'', 2 := ''A'', 3 := ''B''))
       \<lparr>capacity = 0, nbrLabels = 0, entries = Some [None]\<rparr>
       [Call_addLabel True True 1 0]
     = Inr ((\<lambda>p. [])(1 := ''A'', 2 := ''A'', 3 := ''B''),
            \<lparr>capacity = 2, nbrLabels = 1,
              entries = Some [Some \<lparr>label = 1, address = 0\<rparr>, None]\<rparr>) \<and>
   findLabel ((\<lambda>p. [])(1 := ''A'', 2 := ''A'', 3 := ''B''))
       (Some \<lparr>capacity = 2, nbrLabels = 1,
              entries = Some [Some \<lparr>label = 1, address = 0\<rparr>, None]\<rparr>) 2
     = Inr ([], 0) \<and>
   run ((\<lambda>p. [])(1 := ''A'', 2 := ''A'', 3 := ''B''))
       \<lparr>capacity = 0, nbrLabels = 0, entries = Some [None]\<rparr>
       [Call_addLabel True True 1 0, Caller_writes 1 ''B'', Call_addLabel True True 1 4]
     = Inr ((\<lambda>p. [])(1 := ''A'', 2 := ''A'', 3 := ''B'', 1 := ''B''),
            \<lparr>capacity = 2, nbrLabels = 1,
              entries = Some [Some \<lparr>label = 1, address = 0\<rparr>, None]\<rparr>) \<and>
   addLabel ((\<lambda>p. [])(1 := ''A'', 2 := ''A'', 3 := ''B'', 1 := ''B'')) True True
       (Some \<lparr>capacity = 2, nbrLabels = 1,
              entries = Some [Some \<lparr>label = 1, address = 0\<rparr>, None]\<rparr>) 1 4
     = Inr (Some \<lparr>capacity = 2, nbrLabels = 1,
                  entries = Some [Some \<lparr>label = 1, address = 0\<rparr>, None]\<rparr>, [ERROR2], 1) \<and>
   findLabel ((\<lambda>p. [])(1 := ''A'', 2 := ''A'', 3 := ''B'', 1 := ''B''))
       (Some \<lparr>capacity = 2, nbrLabels = 1,
              entries = Some [Some \<lparr>label = 1, address = 0\<rparr>, None]\<rparr>) 2
     = Inr ([], - 1) \<and>
   findLabel ((\<lambda>p. [])(1 := ''A'', 2 := ''A'', 3 := ''B'', 1 := ''B''))
       (Some \<lparr>capacity = 2, nbrLabels = 1,
              entries = Some [Some \<lparr>label = 1, address = 0\<rparr>, None]\<rparr>) 3
     = Inr ([], 0)"
  by (simp add: addLabel_def verifyTableExists_def findLabel_def readEntry_def
        writeEntry_def tableResize_def in_int_range_def INT_MAX_def INT_MIN_def
        findLabel_loop.simps [of _ _ _ 0] findLabel_loop.simps [of _ _ _ 1]
        eval_nat_numeral)

end
